theory Spec2Isabelle
  imports Main "HOL-Library.AList"
begin

section \<open>Strings, exceptions and external calls\<close>

text \<open>
  A Python \<open>str\<close> is modelled as a \<open>string\<close> holding one character per code point
  (the code points below 256, which cover the accented letters of the source's
  literals). An exception of class \<open>Exception\<close> is a value carrying its message
  (\<open>str(e)\<close>); a call that may raise returns \<open>exn + 'a\<close>, with \<open>Inl\<close> for the raise.
  Calls to the external services and to \<open>print\<close> are recorded as events, in the order in
  which the code makes them.
\<close>

datatype exn = Exception string

fun str_exn :: "exn \<Rightarrow> string" where
  "str_exn (Exception msg) = msg"

datatype event =
    Parse string      \<comment> \<open>a call \<open>nlp(text)\<close> of a spaCy pipeline\<close>
  | Generate string   \<comment> \<open>a call of the text generation pipeline on a prompt\<close>
  | Print string      \<comment> \<open>a line written by \<open>print\<close>\<close>

text \<open>
  Python slicing \<open>s[a:b]\<close> on a sequence of length \<open>n\<close>: a negative bound counts from
  the end, and every bound is clamped to \<open>0..n\<close>.
\<close>

definition slice_index :: "nat \<Rightarrow> int \<Rightarrow> nat" where
  "slice_index n k = (if k < 0 then nat (max 0 (int n + k)) else min n (nat k))"

definition slice_to :: "'a list \<Rightarrow> int \<Rightarrow> 'a list" where
  "slice_to s b = take (slice_index (length s) b) s"

definition slice_from :: "'a list \<Rightarrow> int \<Rightarrow> 'a list" where
  "slice_from s a = drop (slice_index (length s) a) s"

definition slice :: "'a list \<Rightarrow> int \<Rightarrow> int \<Rightarrow> 'a list" where
  "slice s a b =
     (let lo = slice_index (length s) a; hi = slice_index (length s) b
      in take (hi - lo) (drop lo s))"

section \<open>The rule registry module\<close>

subsection \<open>RuleType\<close>

datatype RuleType = ADVERB | CONJUGATION | AGREEMENT | STRUCTURE | PUNCTUATION

text \<open>The values \<open>auto()\<close> gives the members, in declaration order.\<close>

fun RuleType_value :: "RuleType \<Rightarrow> nat" where
  "RuleType_value ADVERB = 1"
| "RuleType_value CONJUGATION = 2"
| "RuleType_value AGREEMENT = 3"
| "RuleType_value STRUCTURE = 4"
| "RuleType_value PUNCTUATION = 5"

text \<open>Iterating the enum class yields its members in declaration order.\<close>

definition RuleType_members :: "RuleType list" where
  "RuleType_members = [ADVERB, CONJUGATION, AGREEMENT, STRUCTURE, PUNCTUATION]"

fun french_label :: "RuleType \<Rightarrow> string" where
  "french_label ADVERB = ''Place des adverbes''"
| "french_label CONJUGATION = ''Conjugaison''"
| "french_label AGREEMENT = ''Accord''"
| "french_label STRUCTURE = ''Structure de phrase''"
| "french_label PUNCTUATION = ''Ponctuation''"

text \<open>\<open>str\<close> of a member, as an f-string formats it.\<close>

fun RuleType_str :: "RuleType \<Rightarrow> string" where
  "RuleType_str ADVERB = ''RuleType.ADVERB''"
| "RuleType_str CONJUGATION = ''RuleType.CONJUGATION''"
| "RuleType_str AGREEMENT = ''RuleType.AGREEMENT''"
| "RuleType_str STRUCTURE = ''RuleType.STRUCTURE''"
| "RuleType_str PUNCTUATION = ''RuleType.PUNCTUATION''"

subsection \<open>GrammarError\<close>

record GrammarError =
  rule_type :: RuleType
  message :: string
  suggestion :: string
  err_context :: string   \<comment> \<open>the dataclass field \<open>context\<close>\<close>
  start_pos :: int
  end_pos :: int
  source_text :: string

text \<open>
  The property \<open>highlighted\<close>, in state-passing form: the string it returns and the
  object after the call. Its body binds the three locals \<open>before\<close>, \<open>error\<close> and
  \<open>after\<close> and assigns no attribute of \<open>self\<close>.
\<close>

definition highlighted :: "GrammarError \<Rightarrow> string \<times> GrammarError" where
  "highlighted self =
     (let before = slice_to (source_text self) (start_pos self);
          error = slice (source_text self) (start_pos self) (end_pos self);
          after = slice_from (source_text self) (end_pos self)
      in (before @ ''>>>'' @ error @ ''<<<'' @ after, self))"

subsection \<open>GrammarRule and the registry\<close>

text \<open>
  A parsed document is the list of its tokens. A token keeps its own index \<open>i\<close> and
  the index of its head (the root is its own head); \<open>lefts\<close> and \<open>rights\<close> are the
  children of a token before and after it.
\<close>

record Token =
  tok_text :: string
  tok_lemma :: string
  tok_pos :: string
  tok_tag :: string
  tok_dep :: string
  tok_is_punct :: bool
  tok_is_stop :: bool
  tok_i :: nat
  tok_head :: nat

type_synonym Doc = "Token list"


text \<open>
  The protocol \<open>GrammarRule\<close>: a property \<open>rule_type\<close> and a method \<open>apply\<close>. The four
  built-in rule classes are not part of the sources at hand, and the registry accepts any
  object with these two attributes, so a rule is a parameter of the model: an object with
  an internal state \<open>'s\<close>, which a call of \<open>apply\<close> may change.

  One turn of the loop of \<open>check\<close> runs \<open>for error in rule.apply(doc)\<close> with the
  assignment and the append inside one \<open>try\<close>. Its outcome for one rule is
  \<^item> \<open>Inl e\<close>: the call of \<open>apply\<close> raises \<open>e\<close>;
  \<^item> \<open>Inr (found, None)\<close>: \<open>apply\<close> returns an iterable that yields \<open>found\<close> and ends;
  \<^item> \<open>Inr (found, Some e)\<close>: the iteration raises \<open>e\<close> after \<open>found\<close> has gone through the
    body of the loop (a generator that raises, or an element on which the assignment of
    \<open>source_text\<close> raises).
\<close>

type_synonym outcome = "exn + GrammarError list \<times> exn option"

record 's GrammarRule =
  rule_type_of :: RuleType
  rule_state :: 's
  apply_rule :: "'s \<Rightarrow> Doc \<Rightarrow> outcome \<times> 's"

text \<open>
  An argument given to \<open>add_rule\<close>: an object that passes
  \<open>isinstance(rule, GrammarRule)\<close>, or any other object.
\<close>

datatype 's candidate = Conforming "'s GrammarRule" | NonConforming

text \<open>
  The orchestrator object. The spaCy pipeline \<open>nlp\<close> is an external service: its result
  may depend on a hidden state \<open>'h\<close> of the service at the time of the call, and it may
  raise. The dictionary \<open>_rules\<close> is an association list in insertion order, which is the
  order \<open>values()\<close> iterates in.
\<close>

record ('h, 's) FrenchGrammarRules =
  nlp :: "'h \<Rightarrow> string \<Rightarrow> exn + Doc"
  rules :: "(RuleType \<times> 's GrammarRule) list"

definition load_rules ::
  "'s GrammarRule \<Rightarrow> 's GrammarRule \<Rightarrow> 's GrammarRule \<Rightarrow> 's GrammarRule
     \<Rightarrow> (RuleType \<times> 's GrammarRule) list" where
  "load_rules adverb_rules conjugation_rules agreement_rules sentence_structure_rules =
     [(ADVERB, adverb_rules), (CONJUGATION, conjugation_rules),
      (AGREEMENT, agreement_rules), (STRUCTURE, sentence_structure_rules)]"

definition init_rules ::
  "('h \<Rightarrow> string \<Rightarrow> exn + Doc) \<Rightarrow> 's GrammarRule \<Rightarrow> 's GrammarRule \<Rightarrow> 's GrammarRule
     \<Rightarrow> 's GrammarRule \<Rightarrow> ('h, 's) FrenchGrammarRules" where
  "init_rules model a c g s = \<lparr>nlp = model, rules = load_rules a c g s\<rparr>"

definition call_nlp ::
  "('h \<Rightarrow> string \<Rightarrow> exn + Doc) \<Rightarrow> 'h \<Rightarrow> string \<Rightarrow> (exn + Doc) \<times> event list" where
  "call_nlp model h text = (model h text, [Parse text])"

text \<open>
  One turn of the loop of \<open>check\<close>, on the list \<open>errors\<close> and the lines printed so far:
  every error that went through the body has \<open>source_text\<close> set to the checked text and
  is appended, also when the turn ends in the \<open>except\<close> branch, which prints and goes on
  to the next rule.
\<close>

definition report :: "'s GrammarRule \<Rightarrow> exn \<Rightarrow> event" where
  "report rule e =
     Print (''Error applying '' @ RuleType_str (rule_type_of rule) @ '' rules: '' @ str_exn e)"

fun turn ::
  "'s GrammarRule \<Rightarrow> outcome \<Rightarrow> string \<Rightarrow> GrammarError list \<times> event list
     \<Rightarrow> GrammarError list \<times> event list" where
  "turn rule (Inl e) text (errors, out) = (errors, out @ [report rule e])"
| "turn rule (Inr (found, None)) text (errors, out) =
     (errors @ map (\<lambda>error. error\<lparr>source_text := text\<rparr>) found, out)"
| "turn rule (Inr (found, Some e)) text (errors, out) =
     (errors @ map (\<lambda>error. error\<lparr>source_text := text\<rparr>) found, out @ [report rule e])"

text \<open>
  The loop over \<open>self._rules.values()\<close>. It returns the list \<open>errors\<close> and the printed
  lines, and the registry after the loop: the same keys and rule objects in the same
  order, each rule in the state its call of \<open>apply\<close> left it in.
\<close>

fun check_loop ::
  "(RuleType \<times> 's GrammarRule) list \<Rightarrow> Doc \<Rightarrow> string \<Rightarrow> GrammarError list \<times> event list
     \<Rightarrow> (GrammarError list \<times> event list) \<times> (RuleType \<times> 's GrammarRule) list" where
  "check_loop [] doc text acc = (acc, [])"
| "check_loop ((k, rule) # rest) doc text acc =
     (case apply_rule rule (rule_state rule) doc of
        (result, s') \<Rightarrow>
          (case check_loop rest doc text (turn rule result text acc) of
             (acc', rest') \<Rightarrow> (acc', (k, rule\<lparr>rule_state := s'\<rparr>) # rest')))"

text \<open>
  \<open>check\<close>, in state-passing form: the value returned with the events, and the
  orchestrator after the call. \<open>sorted(errors, key=lambda e: e.start_pos)\<close> is a stable
  sort on the start offset, as \<open>sort_key\<close> is. A failure of the parser propagates to the
  caller.
\<close>

definition check_call ::
  "('h, 's) FrenchGrammarRules \<Rightarrow> 'h \<Rightarrow> string
     \<Rightarrow> ((exn + GrammarError list) \<times> event list) \<times> ('h, 's) FrenchGrammarRules" where
  "check_call self h text =
     (case call_nlp (nlp self) h text of
        (Inl e, tr) \<Rightarrow> ((Inl e, tr), self)
      | (Inr doc, tr) \<Rightarrow>
          (case check_loop (rules self) doc text ([], []) of
             ((errors, out), rules') \<Rightarrow>
               ((Inr (sort_key start_pos errors), tr @ out), self\<lparr>rules := rules'\<rparr>)))"

definition check ::
  "('h, 's) FrenchGrammarRules \<Rightarrow> 'h \<Rightarrow> string \<Rightarrow> (exn + GrammarError list) \<times> event list" where
  "check self h text = fst (check_call self h text)"

definition after_check ::
  "('h, 's) FrenchGrammarRules \<Rightarrow> 'h \<Rightarrow> string \<Rightarrow> ('h, 's) FrenchGrammarRules" where
  "after_check self h text = snd (check_call self h text)"

definition get_rule :: "('h, 's) FrenchGrammarRules \<Rightarrow> RuleType \<Rightarrow> 's GrammarRule option" where
  "get_rule self t = map_of (rules self) t"

fun add_rule :: "'s candidate \<Rightarrow> ('h, 's) FrenchGrammarRules \<Rightarrow> ('h, 's) FrenchGrammarRules" where
  "add_rule (Conforming rule) self =
     self\<lparr>rules := AList.update (rule_type_of rule) rule (rules self)\<rparr>"
| "add_rule NonConforming self = self"

section \<open>The utilities module\<close>

definition FRENCH_POS_TAGS :: "(string \<times> string) list" where
  "FRENCH_POS_TAGS =
     [(''NOUN'', ''Nom''), (''VERB'', ''Verbe''), (''ADV'', ''Adverbe''),
      (''ADJ'', ''Adjectif''), (''PRON'', ''Pronom''),
      (''DET'', ''D'' @ [CHR 0xE9] @ ''terminant''),
      (''ADP'', ''Pr'' @ [CHR 0xE9] @ ''position''),
      (''CONJ'', ''Conjonction''), (''SCONJ'', ''Conjonction de subordination''),
      (''CCONJ'', ''Conjonction de coordination''), (''AUX'', ''Auxiliaire''),
      (''PART'', ''Particule''), (''INTJ'', ''Interjection''),
      (''NUM'', ''Num'' @ [CHR 0xE9] @ ''ral''), (''PROPN'', ''Nom propre''),
      (''PUNCT'', ''Ponctuation''), (''SYM'', ''Symbole''), (''X'', ''Autre''),
      (''SUBJ'', ''Sujet'')]"

definition get_french_pos_tag :: "string \<Rightarrow> string" where
  "get_french_pos_tag spacy_tag =
     (case map_of FRENCH_POS_TAGS spacy_tag of None \<Rightarrow> spacy_tag | Some t \<Rightarrow> t)"

record token_info =
  info_text :: string
  info_lemma :: string
  info_pos :: string
  info_french_pos :: string
  info_tag :: string
  info_dep :: string
  info_is_punctuation :: bool
  info_is_stop :: bool

definition token_structure :: "Token \<Rightarrow> token_info" where
  "token_structure token =
     (let token_info =
            \<lparr>info_text = tok_text token, info_lemma = tok_lemma token,
             info_pos = tok_pos token, info_french_pos = get_french_pos_tag (tok_pos token),
             info_tag = tok_tag token, info_dep = tok_dep token,
             info_is_punctuation = tok_is_punct token, info_is_stop = tok_is_stop token\<rparr>
      in if tok_dep token \<in> set [''nsubj'', ''nsubj:pass'']
         then token_info\<lparr>info_french_pos := ''Sujet''\<rparr>
         else token_info)"

definition analyze_sentence_structure ::
  "('h \<Rightarrow> string \<Rightarrow> exn + Doc) \<Rightarrow> 'h \<Rightarrow> string \<Rightarrow> (exn + token_info list) \<times> event list" where
  "analyze_sentence_structure utils_nlp h sentence =
     (case call_nlp utils_nlp h sentence of
        (Inl e, tr) \<Rightarrow> (Inl e, tr)
      | (Inr doc, tr) \<Rightarrow> (Inr (map token_structure doc), tr))"

definition head_of :: "Doc \<Rightarrow> Token \<Rightarrow> Token" where
  "head_of doc token = doc ! tok_head token"

definition lefts :: "Doc \<Rightarrow> Token \<Rightarrow> Token list" where
  "lefts doc token = filter (\<lambda>t. tok_head t = tok_i token \<and> tok_i t < tok_i token) doc"

definition rights :: "Doc \<Rightarrow> Token \<Rightarrow> Token list" where
  "rights doc token = filter (\<lambda>t. tok_head t = tok_i token \<and> tok_i token < tok_i t) doc"

text \<open>
  A document as the parser builds it: every token sits at its own index and its head is
  a token of the document.
\<close>

definition wf_doc :: "Doc \<Rightarrow> bool" where
  "wf_doc doc =
     list_all (\<lambda>k. tok_i (doc ! k) = k \<and> tok_head (doc ! k) < length doc) [0..<length doc]"

text \<open>
  \<open>detect_compound_tenses\<close> (lines 89 to 113 of the utilities) is not embedded: its first
  test opens a parenthesis that it never closes, so the text as shipped is not a function
  Python accepts. \<open>validate_adverb_placement\<close> calls it once, on the head of an adverb
  and the verbs among the right children of that head, and tests the answer for truth;
  the tense detection is therefore a parameter \<open>detect\<close> of the model, any function from
  a token list to an optional string.
\<close>

type_synonym tense_detector = "Token list \<Rightarrow> string option"

text \<open>The two checks the loop of \<open>validate_adverb_placement\<close> makes on an adverb.\<close>

definition separates_subject_and_verb :: "Doc \<Rightarrow> Token \<Rightarrow> bool" where
  "separates_subject_and_verb doc token =
     (tok_pos (head_of doc token) = ''VERB''
      \<and> list_ex (\<lambda>t. tok_dep t \<in> set [''nsubj'', ''nsubj:pass''])
           (lefts doc (head_of doc token)))"

text \<open>
  The second check: \<open>None\<close> when its condition fails, or when the answer of the detector
  is not true in a test (\<open>None\<close> or the empty string).
\<close>

definition compound_tense_of :: "tense_detector \<Rightarrow> Doc \<Rightarrow> Token \<Rightarrow> string option" where
  "compound_tense_of detect doc token =
     (if tok_pos (head_of doc token) = ''AUX'' \<and> tok_i (head_of doc token) < tok_i token
      then (case detect ([head_of doc token]
                           @ filter (\<lambda>t. tok_pos t = ''VERB'') (rights doc (head_of doc token))) of
              None \<Rightarrow> None
            | Some tense \<Rightarrow> if tense = [] then None else Some tense)
      else None)"

definition separation_message :: "Token \<Rightarrow> string" where
  "separation_message token =
     ''Adverbe '' @ [CHR 0x27] @ tok_text token @ [CHR 0x27] @ '' mal plac'' @ [CHR 0xE9]
       @ ''. En fran'' @ [CHR 0xE7] @ ''ais, l'' @ [CHR 0x27] @ ''adverbe ne doit g''
       @ [CHR 0xE9] @ ''n'' @ [CHR 0xE9] @ ''ralement pas s'' @ [CHR 0xE9]
       @ ''parer le sujet et le verbe.''"

definition compound_message :: "Doc \<Rightarrow> Token \<Rightarrow> string \<Rightarrow> string" where
  "compound_message doc token tense =
     ''Dans le '' @ tense @ '', l'' @ [CHR 0x27] @ ''adverbe '' @ [CHR 0x27] @ tok_text token
       @ [CHR 0x27] @ '' devrait normalement se placer apr'' @ [CHR 0xE8] @ ''s l''
       @ [CHR 0x27] @ ''auxiliaire '' @ [CHR 0x27] @ tok_text (head_of doc token)
       @ [CHR 0x27] @ ''.''"

fun validate_loop :: "tense_detector \<Rightarrow> Doc \<Rightarrow> Token list \<Rightarrow> bool \<times> string option" where
  "validate_loop detect doc [] = (True, None)"
| "validate_loop detect doc (token # rest) =
     (if tok_pos token = ''ADV'' then
        (if separates_subject_and_verb doc token
         then (False, Some (separation_message token))
         else (case compound_tense_of detect doc token of
                 Some tense \<Rightarrow> (False, Some (compound_message doc token tense))
               | None \<Rightarrow> validate_loop detect doc rest))
      else validate_loop detect doc rest)"

definition validate_adverb_placement ::
  "tense_detector \<Rightarrow> ('h \<Rightarrow> string \<Rightarrow> exn + Doc) \<Rightarrow> 'h \<Rightarrow> string
     \<Rightarrow> (exn + bool \<times> string option) \<times> event list" where
  "validate_adverb_placement detect utils_nlp h sentence =
     (case call_nlp utils_nlp h sentence of
        (Inl e, tr) \<Rightarrow> (Inl e, tr)
      | (Inr doc, tr) \<Rightarrow> (Inr (validate_loop detect doc doc), tr))"

section \<open>The checker service\<close>

text \<open>
  \<open>str.strip()\<close> removes leading and trailing whitespace; below 256 the whitespace code
  points are 9 to 13, 28 to 32, 133 and 160.
\<close>

definition isspace :: "char \<Rightarrow> bool" where
  "isspace c =
     (let n = (of_char c :: nat)
      in (9 \<le> n \<and> n \<le> 13) \<or> (28 \<le> n \<and> n \<le> 32) \<or> n = 133 \<or> n = 160)"

definition strip :: "string \<Rightarrow> string" where
  "strip s = rev (dropWhile isspace (rev (dropWhile isspace s)))"

record error_stats =
  total_errors :: nat
  by_type :: "(string \<times> nat) list"

record GrammarCheckResult =
  original_text :: string
  errors :: "GrammarError list"
  sentence_structure :: "token_info list"   \<comment> \<open>the field \<open>structure\<close>\<close>
  ai_suggestions :: "string list"
  stats :: error_stats

text \<open>
  The checker object: the rule orchestrator and the text generation pipeline. A call of
  the pipeline on a prompt raises or returns a list of dictionaries.
\<close>

record ('h, 's) FrenchGrammarChecker =
  rule_checker :: "('h, 's) FrenchGrammarRules"
  ai_grammar_model :: "string \<Rightarrow> exn + (string \<rightharpoonup> string) list"

text \<open>
  One turn of the loop over the prompts: the call of the model, then
  \<open>output[0]["generated_text"]\<close>, which raises IndexError on an empty list and KeyError
  on a missing key.
\<close>

definition generated_text :: "(string \<rightharpoonup> string) list \<Rightarrow> exn + string" where
  "generated_text output =
     (case output of
        [] \<Rightarrow> Inl (Exception ''list index out of range'')
      | first # _ \<Rightarrow>
          (case first ''generated_text'' of
             None \<Rightarrow> Inl (Exception ([CHR 0x27] @ ''generated_text'' @ [CHR 0x27]))
           | Some t \<Rightarrow> Inr t))"

fun ai_loop ::
  "(string \<Rightarrow> exn + (string \<rightharpoonup> string) list) \<Rightarrow> string list \<Rightarrow> string list \<times> event list
     \<Rightarrow> (exn + string list) \<times> event list" where
  "ai_loop model [] (results, tr) = (Inr results, tr)"
| "ai_loop model (prompt # rest) (results, tr) =
     (case model prompt of
        Inl e \<Rightarrow> (Inl e, tr @ [Generate prompt])
      | Inr output \<Rightarrow>
          (case generated_text output of
             Inl e \<Rightarrow> (Inl e, tr @ [Generate prompt])
           | Inr t \<Rightarrow> ai_loop model rest (results @ [t], tr @ [Generate prompt])))"

definition prompts_for :: "string \<Rightarrow> string list" where
  "prompts_for text =
     [''Corrigez cette phrase en fran'' @ [CHR 0xE7] @ ''ais en expliquant la r''
        @ [CHR 0xE8] @ ''gle: '' @ text,
      ''Suggestions d'' @ [CHR 0x27] @ ''am'' @ [CHR 0xE9] @ ''lioration pour: '' @ text]"

definition get_ai_suggestions ::
  "('h, 's) FrenchGrammarChecker \<Rightarrow> string \<Rightarrow> GrammarError list \<Rightarrow> string list \<times> event list" where
  "get_ai_suggestions self text errs =
     (if errs = [] then ([], [])
      else (case ai_loop (ai_grammar_model self) (prompts_for text) ([], []) of
              (Inr results, tr) \<Rightarrow> (results, tr)
            | (Inl e, tr) \<Rightarrow> ([], tr @ [Print (''AI suggestion failed: '' @ str_exn e)])))"

text \<open>
  \<open>_generate_stats\<close>: every label of the enum starts at zero, then each error adds one
  to the entry of its label.
\<close>

definition generate_stats :: "GrammarError list \<Rightarrow> error_stats" where
  "generate_stats errs =
     \<lparr>total_errors = length errs,
      by_type =
        foldl (\<lambda>counts error. AList.map_entry (french_label (rule_type error)) (\<lambda>n. n + 1) counts)
          (map (\<lambda>t. (french_label t, 0)) RuleType_members) errs\<rparr>"

definition empty_result :: "string \<Rightarrow> GrammarCheckResult" where
  "empty_result text =
     \<lparr>original_text = text, errors = [], sentence_structure = [], ai_suggestions = [],
      stats = \<lparr>total_errors = 0, by_type = []\<rparr>\<rparr>"

text \<open>
  \<open>FrenchGrammarChecker.check\<close>. The module-level pipeline of the utilities module, which
  \<open>analyze_sentence_structure\<close> calls, is the parameter \<open>utils_nlp\<close>; \<open>h\<close> and \<open>h'\<close>
  are the hidden states of the two pipelines at their calls. The value returned and the
  events of one call are modelled; \<open>check\<close> of the orchestrator gives both.
\<close>

definition checker_check ::
  "('h \<Rightarrow> string \<Rightarrow> exn + Doc) \<Rightarrow> ('h, 's) FrenchGrammarChecker \<Rightarrow> 'h \<Rightarrow> 'h \<Rightarrow> string
     \<Rightarrow> (exn + GrammarCheckResult) \<times> event list" where
  "checker_check utils_nlp self h h' text =
     (if strip text = [] then (Inr (empty_result text), [])
      else
        (case check (rule_checker self) h text of
           (Inl e, tr1) \<Rightarrow> (Inl e, tr1)
         | (Inr errs, tr1) \<Rightarrow>
             (case get_ai_suggestions self text errs of
                (suggestions, tr2) \<Rightarrow>
                  (case analyze_sentence_structure utils_nlp h' text of
                     (Inl e, tr3) \<Rightarrow> (Inl e, tr1 @ tr2 @ tr3)
                   | (Inr struct, tr3) \<Rightarrow>
                       (Inr \<lparr>original_text = text, errors = errs, sentence_structure = struct,
                             ai_suggestions = suggestions, stats = generate_stats errs\<rparr>,
                        tr1 @ tr2 @ tr3)))))"

section \<open>Notions used by the properties\<close>

subsection \<open>The orchestrator\<close>

text \<open>
  For one rule in its current state: the errors that go through the body of the loop in
  its turn, the exception that ends the turn (if any), what the turn adds to the list
  \<open>errors\<close>, and the list collected from all rules before it is sorted.
\<close>

definition yielded :: "'s GrammarRule \<Rightarrow> Doc \<Rightarrow> GrammarError list" where
  "yielded rule doc =
     (case fst (apply_rule rule (rule_state rule) doc) of
        Inl e \<Rightarrow> []
      | Inr (found, stop) \<Rightarrow> found)"

definition failure :: "'s GrammarRule \<Rightarrow> Doc \<Rightarrow> exn option" where
  "failure rule doc =
     (case fst (apply_rule rule (rule_state rule) doc) of
        Inl e \<Rightarrow> Some e
      | Inr (found, stop) \<Rightarrow> stop)"

definition contribution :: "'s GrammarRule \<Rightarrow> Doc \<Rightarrow> string \<Rightarrow> GrammarError list" where
  "contribution rule doc text = map (\<lambda>error. error\<lparr>source_text := text\<rparr>) (yielded rule doc)"

definition collected :: "'s GrammarRule list \<Rightarrow> Doc \<Rightarrow> string \<Rightarrow> GrammarError list" where
  "collected rs doc text = concat (map (\<lambda>rule. contribution rule doc text) rs)"

text \<open>
  The lines the loop of \<open>check\<close> prints on a document, and the registry after the loop.
\<close>

definition printed :: "(RuleType \<times> 's GrammarRule) list \<Rightarrow> Doc \<Rightarrow> event list" where
  "printed registry doc =
     concat (map (\<lambda>p. case failure (snd p) doc of None \<Rightarrow> [] | Some e \<Rightarrow> [report (snd p) e])
               registry)"

definition advanced ::
  "(RuleType \<times> 's GrammarRule) list \<Rightarrow> Doc \<Rightarrow> (RuleType \<times> 's GrammarRule) list" where
  "advanced registry doc =
     map (\<lambda>p. (fst p, (snd p)\<lparr>rule_state := snd (apply_rule (snd p) (rule_state (snd p)) doc)\<rparr>))
       registry"

text \<open>
  The order the specification asks of two errors, the first of which comes first in the
  list: by start offset, and by the value of the rule category where the offsets agree.
\<close>

definition by_start_then_type :: "GrammarError \<Rightarrow> GrammarError \<Rightarrow> bool" where
  "by_start_then_type a b =
     (start_pos a < start_pos b
      \<or> (start_pos a = start_pos b
          \<and> RuleType_value (rule_type a) \<le> RuleType_value (rule_type b)))"

text \<open>
  Every registered rule only emits, on this document, errors of the category it is
  registered under.
\<close>

definition emits_own_type :: "(RuleType \<times> 's GrammarRule) list \<Rightarrow> Doc \<Rightarrow> string \<Rightarrow> bool" where
  "emits_own_type registry doc text =
     list_all (\<lambda>(k, rule). list_all (\<lambda>e. rule_type e = k) (contribution rule doc text)) registry"

text \<open>
  A parser whose result does not depend on its hidden state, and a rule whose outcome
  does not depend on its internal state.
\<close>

definition deterministic :: "('h \<Rightarrow> string \<Rightarrow> exn + Doc) \<Rightarrow> bool" where
  "deterministic model = (\<forall>h h' text. model h text = model h' text)"

definition stateless :: "'s GrammarRule \<Rightarrow> bool" where
  "stateless rule = (\<forall>s s' doc. fst (apply_rule rule s doc) = fst (apply_rule rule s' doc))"

subsection \<open>Adverb placement\<close>






text \<open>
  The first violation pattern in the words of the specification: an adverb whose head is
  a finite verb that has a left dependent tagged as nominal subject, the adverb sitting
  between subject and verb. Finiteness is read from the tag, as the utilities read
  \<open>VerbForm=Fin\<close>.
\<close>

fun starts_with :: "string \<Rightarrow> string \<Rightarrow> bool" where
  "starts_with s [] = True"
| "starts_with [] (p # ps) = False"
| "starts_with (c # cs) (p # ps) = (c = p \<and> starts_with cs ps)"

fun str_contains :: "string \<Rightarrow> string \<Rightarrow> bool" where
  "str_contains [] sub = (sub = [])"
| "str_contains (c # cs) sub = (starts_with (c # cs) sub \<or> str_contains cs sub)"

definition finite_verb :: "Token \<Rightarrow> bool" where
  "finite_verb v = (tok_pos v = ''VERB'' \<and> str_contains (tok_tag v) ''VerbForm=Fin'')"

definition spec_subject_verb_separation :: "Doc \<Rightarrow> Token \<Rightarrow> bool" where
  "spec_subject_verb_separation doc t =
     (tok_pos t = ''ADV'' \<and> finite_verb (doc ! tok_head t)
      \<and> list_ex (\<lambda>s. tok_head s = tok_i (doc ! tok_head t) \<and> tok_i s < tok_i t
                     \<and> (tok_dep s = ''nsubj'' \<or> tok_dep s = ''nsubj:pass'')) doc
      \<and> tok_i t < tok_i (doc ! tok_head t))"

subsection \<open>The checker service\<close>

text \<open>
  An event that is a request to the text generation pipeline, and a prompt on which one
  turn of the loop of \<open>_get_ai_suggestions\<close> raises (in the call of the model or in
  reading its output).
\<close>

fun is_request :: "event \<Rightarrow> bool" where
  "is_request (Generate prompt) = True"
| "is_request (Parse text) = False"
| "is_request (Print line) = False"

definition ai_call_raises ::
  "(string \<Rightarrow> exn + (string \<rightharpoonup> string) list) \<Rightarrow> string \<Rightarrow> bool" where
  "ai_call_raises model prompt =
     (case model prompt of
        Inl e \<Rightarrow> True
      | Inr output \<Rightarrow> (case generated_text output of Inl e \<Rightarrow> True | Inr t \<Rightarrow> False))"

text \<open>The parts of a result other than the suggestions.\<close>

definition rest_of_result ::
  "GrammarCheckResult \<Rightarrow> string \<times> GrammarError list \<times> token_info list \<times> error_stats" where
  "rest_of_result r = (original_text r, errors r, sentence_structure r, stats r)"

section \<open>Sample objects\<close>

text \<open>
  Concrete errors, rules, parsers, orchestrators and documents, on which the properties
  below are evaluated.
\<close>

definition error_at :: "RuleType \<Rightarrow> int \<Rightarrow> int \<Rightarrow> GrammarError" where
  "error_at t a b =
     \<lparr>rule_type = t, message = ''message'', suggestion = ''suggestion'', err_context = ''context'',
      start_pos = a, end_pos = b, source_text = []\<rparr>"

text \<open>A rule that returns a fixed list, and a rule whose call of \<open>apply\<close> raises.\<close>

definition constant_rule :: "RuleType \<Rightarrow> GrammarError list \<Rightarrow> nat GrammarRule" where
  "constant_rule t found =
     \<lparr>rule_type_of = t, rule_state = 0, apply_rule = (\<lambda>s doc. (Inr (found, None), s))\<rparr>"

definition failing_rule :: "RuleType \<Rightarrow> string \<Rightarrow> nat GrammarRule" where
  "failing_rule t msg =
     \<lparr>rule_type_of = t, rule_state = 0, apply_rule = (\<lambda>s doc. (Inl (Exception msg), s))\<rparr>"

text \<open>
  A rule written as a generator: it yields one error and raises when asked for the next.
\<close>

definition generator_rule :: "RuleType \<Rightarrow> GrammarError \<Rightarrow> string \<Rightarrow> nat GrammarRule" where
  "generator_rule t error msg =
     \<lparr>rule_type_of = t, rule_state = 0,
      apply_rule = (\<lambda>s doc. (Inr ([error], Some (Exception msg)), s))\<rparr>"

text \<open>
  A rule that counts its calls: at its \<open>n\<close>-th call it reports one error at offset \<open>n\<close>.
\<close>

definition counting_rule :: "RuleType \<Rightarrow> nat GrammarRule" where
  "counting_rule t =
     \<lparr>rule_type_of = t, rule_state = 0,
      apply_rule = (\<lambda>s doc. (Inr ([error_at t (int s) (int s + 1)], None), s + 1))\<rparr>"

definition fixed_parser :: "Doc \<Rightarrow> nat \<Rightarrow> string \<Rightarrow> exn + Doc" where
  "fixed_parser doc h text = Inr doc"

definition sample_rules :: "(nat, nat) FrenchGrammarRules" where
  "sample_rules =
     init_rules (fixed_parser [])
       (constant_rule ADVERB [error_at ADVERB 3 13])
       (constant_rule CONJUGATION [error_at CONJUGATION 14 20, error_at CONJUGATION 3 13])
       (constant_rule AGREEMENT [error_at AGREEMENT 0 2])
       (constant_rule STRUCTURE [])"

definition foreign_rules :: "(nat, nat) FrenchGrammarRules" where
  "foreign_rules =
     init_rules (fixed_parser [])
       (constant_rule ADVERB [error_at STRUCTURE 0 2])
       (constant_rule CONJUGATION [error_at CONJUGATION 0 2])
       (constant_rule AGREEMENT [])
       (constant_rule STRUCTURE [])"

definition failing_rules :: "(nat, nat) FrenchGrammarRules" where
  "failing_rules =
     init_rules (fixed_parser [])
       (failing_rule ADVERB ''boom'')
       (constant_rule CONJUGATION [error_at CONJUGATION 3 7])
       (constant_rule AGREEMENT [])
       (constant_rule STRUCTURE [])"

definition generator_rules :: "(nat, nat) FrenchGrammarRules" where
  "generator_rules =
     init_rules (fixed_parser [])
       (generator_rule ADVERB (error_at ADVERB 3 13) ''boom'')
       (constant_rule CONJUGATION [error_at CONJUGATION 14 20])
       (constant_rule AGREEMENT [])
       (constant_rule STRUCTURE [])"

definition counting_rules :: "(nat, nat) FrenchGrammarRules" where
  "counting_rules =
     init_rules (fixed_parser [])
       (counting_rule ADVERB)
       (constant_rule CONJUGATION [])
       (constant_rule AGREEMENT [])
       (constant_rule STRUCTURE [])"

definition raising_checker :: "(nat, nat) FrenchGrammarChecker" where
  "raising_checker =
     \<lparr>rule_checker = sample_rules,
      ai_grammar_model = (\<lambda>prompt. Inl (Exception ''model not loaded''))\<rparr>"

text \<open>A tense detector that never answers.\<close>

definition no_tense :: tense_detector where
  "no_tense verb_phrase = None"

definition tok_je :: "nat \<Rightarrow> Token" where
  "tok_je head =
     \<lparr>tok_text = ''Je'', tok_lemma = ''je'', tok_pos = ''PRON'', tok_tag = ''PRON'',
      tok_dep = ''nsubj'', tok_is_punct = False, tok_is_stop = True, tok_i = 0, tok_head = head\<rparr>"

definition tok_adverb :: "string \<Rightarrow> nat \<Rightarrow> nat \<Rightarrow> Token" where
  "tok_adverb word i head =
     \<lparr>tok_text = word, tok_lemma = word, tok_pos = ''ADV'', tok_tag = ''ADV'',
      tok_dep = ''advmod'', tok_is_punct = False, tok_is_stop = False, tok_i = i, tok_head = head\<rparr>"

definition tok_mange :: "nat \<Rightarrow> Token" where
  "tok_mange i =
     \<lparr>tok_text = ''mange'', tok_lemma = ''manger'', tok_pos = ''VERB'',
      tok_tag = ''VERB__Mood=Ind|Number=Sing|Person=1|Tense=Pres|VerbForm=Fin'',
      tok_dep = ''ROOT'', tok_is_punct = False, tok_is_stop = False, tok_i = i, tok_head = i\<rparr>"

text \<open>\<open>Je souvent mange\<close>, \<open>Je souvent rapidement mange\<close> and \<open>Je mange rapidement\<close>.\<close>

definition one_adverb :: Doc where
  "one_adverb = [tok_je 2, tok_adverb ''souvent'' 1 2, tok_mange 2]"

definition two_adverbs :: Doc where
  "two_adverbs =
     [tok_je 3, tok_adverb ''souvent'' 1 3, tok_adverb ''rapidement'' 2 3, tok_mange 3]"

definition adverb_after_verb :: Doc where
  "adverb_after_verb = [tok_je 1, tok_mange 1, tok_adverb ''rapidement'' 2 1]"

section \<open>Properties\<close>

subsection \<open>The highlighted view\<close>

lemma slice_index_in_range:
  "0 \<le> k \<Longrightarrow> k \<le> int n \<Longrightarrow> slice_index n k = nat k"
  by (simp add: slice_index_def)

text \<open>
  C7. For an error whose offsets satisfy \<open>0 \<le> start_pos \<le> end_pos \<le> len(source_text)\<close>,
  the highlighted view is the text before \<open>start_pos\<close>, the marker \<open>>>>\<close>, the span
  \<open>source_text[start_pos:end_pos]\<close>, the marker \<open><<<\<close> and the text after \<open>end_pos\<close>;
  the three pieces are a partition of the source text, and the object after the call is
  the object before it: nothing is modified or stored.
\<close>

theorem highlighted_view:
  assumes "0 \<le> start_pos e" and "start_pos e \<le> end_pos e"
    and "end_pos e \<le> int (length (source_text e))"
  shows "highlighted e =
           (take (nat (start_pos e)) (source_text e) @ ''>>>''
              @ take (nat (end_pos e) - nat (start_pos e)) (drop (nat (start_pos e)) (source_text e))
              @ ''<<<'' @ drop (nat (end_pos e)) (source_text e), e)
         \<and> take (nat (start_pos e)) (source_text e)
              @ take (nat (end_pos e) - nat (start_pos e)) (drop (nat (start_pos e)) (source_text e))
              @ drop (nat (end_pos e)) (source_text e) = source_text e"
proof -
  let ?s = "source_text e"
  let ?a = "nat (start_pos e)"
  let ?b = "nat (end_pos e)"
  have ia: "slice_index (length ?s) (start_pos e) = ?a"
    using assms by (intro slice_index_in_range) auto
  have ib: "slice_index (length ?s) (end_pos e) = ?b"
    using assms by (intro slice_index_in_range) auto
  have view: "highlighted e =
      (take ?a ?s @ ''>>>'' @ take (?b - ?a) (drop ?a ?s) @ ''<<<'' @ drop ?b ?s, e)"
    by (simp add: highlighted_def slice_to_def slice_def slice_from_def ia ib Let_def)
  have ab: "?a \<le> ?b" using assms by simp
  have "take (?b - ?a) (drop ?a ?s) @ drop ?b ?s = drop ?a ?s"
  proof -
    have "drop ?b ?s = drop (?b - ?a) (drop ?a ?s)" using ab by simp
    then show ?thesis by (simp del: drop_drop)
  qed
  then have part: "take ?a ?s @ take (?b - ?a) (drop ?a ?s) @ drop ?b ?s = ?s"
    by simp
  from view part show ?thesis by simp
qed

theorem highlighted_view_witness:
  "highlighted \<lparr>rule_type = AGREEMENT, message = ''accord'', suggestion = ''petite'',
       err_context = ''La petit fille'', start_pos = 3, end_pos = 8,
       source_text = ''La petit fille''\<rparr>
     = (''La >>>petit<<< fille'',
        \<lparr>rule_type = AGREEMENT, message = ''accord'', suggestion = ''petite'',
         err_context = ''La petit fille'', start_pos = 3, end_pos = 8,
         source_text = ''La petit fille''\<rparr>)"
  using highlighted_view [of "\<lparr>rule_type = AGREEMENT, message = ''accord'', suggestion = ''petite'',
       err_context = ''La petit fille'', start_pos = 3, end_pos = 8,
       source_text = ''La petit fille''\<rparr>"]
  by simp

subsection \<open>The orchestrator\<close>

lemma turn_adds:
  "turn rule (fst (apply_rule rule (rule_state rule) doc)) text (errs, out)
     = (errs @ contribution rule doc text,
        out @ (case failure rule doc of None \<Rightarrow> [] | Some e \<Rightarrow> [report rule e]))"
proof (cases "fst (apply_rule rule (rule_state rule) doc)")
  case (Inl e)
  then show ?thesis by (simp add: contribution_def yielded_def failure_def)
next
  case (Inr r)
  obtain found stop where r: "r = (found, stop)" by (cases r)
  show ?thesis
  proof (cases stop)
    case None
    then show ?thesis using Inr r by (simp add: contribution_def yielded_def failure_def)
  next
    case (Some e)
    then show ?thesis using Inr r by (simp add: contribution_def yielded_def failure_def)
  qed
qed

lemma check_loop_result:
  "check_loop registry doc text (errs, out)
     = ((errs @ collected (map snd registry) doc text, out @ printed registry doc),
        advanced registry doc)"
proof (induction registry arbitrary: errs out)
  case Nil
  then show ?case by (simp add: collected_def printed_def advanced_def)
next
  case (Cons p registry)
  obtain k rule where p: "p = (k, rule)" by (cases p)
  obtain result s' where a: "apply_rule rule (rule_state rule) doc = (result, s')"
    by (cases "apply_rule rule (rule_state rule) doc")
  have t: "turn rule result text (errs, out)
      = (errs @ contribution rule doc text,
         out @ (case failure rule doc of None \<Rightarrow> [] | Some e \<Rightarrow> [report rule e]))"
    using turn_adds [of rule doc "text" errs out] a by simp
  show ?case
    unfolding p
    by (simp add: a t Cons.IH collected_def printed_def advanced_def split: option.split)
qed

lemma check_call_parsed:
  assumes "nlp self h text = Inr doc"
  shows "check_call self h text
           = ((Inr (sort_key start_pos (collected (map snd (rules self)) doc text)),
               Parse text # printed (rules self) doc),
              self\<lparr>rules := advanced (rules self) doc\<rparr>)"
  using assms by (simp add: check_call_def call_nlp_def check_loop_result)

lemma check_parsed:
  assumes "nlp self h text = Inr doc"
  shows "fst (check self h text) = Inr (sort_key start_pos (collected (map snd (rules self)) doc text))"
  using check_call_parsed [OF assms] by (simp add: check_def)

lemma check_events:
  assumes "nlp self h text = Inr doc"
  shows "snd (check self h text) = Parse text # printed (rules self) doc"
  using check_call_parsed [OF assms] by (simp add: check_def)

lemma check_failed:
  assumes "nlp self h text = Inl e"
  shows "check self h text = (Inl e, [Parse text])" and "after_check self h text = self"
  using assms by (simp_all add: check_def after_check_def check_call_def call_nlp_def)

lemma after_check_parsed:
  assumes "nlp self h text = Inr doc"
  shows "after_check self h text = self\<lparr>rules := advanced (rules self) doc\<rparr>"
  using check_call_parsed [OF assms] by (simp add: after_check_def)

lemma by_start_then_type_insort:
  assumes "sorted_wrt by_start_then_type ys"
    and "\<forall>y \<in> set ys. RuleType_value (rule_type x) \<le> RuleType_value (rule_type y)"
  shows "sorted_wrt by_start_then_type (insort_key start_pos x ys)"
  using assms
proof (induction ys)
  case Nil
  then show ?case by simp
next
  case (Cons y ys)
  show ?case
  proof (cases "start_pos x \<le> start_pos y")
    case True
    have "by_start_then_type x z" if "z \<in> set (y # ys)" for z
    proof -
      have "start_pos y \<le> start_pos z"
        using that Cons.prems(1) by (auto simp: by_start_then_type_def)
      moreover have "RuleType_value (rule_type x) \<le> RuleType_value (rule_type z)"
        using that Cons.prems(2) by auto
      ultimately show ?thesis using True by (auto simp: by_start_then_type_def)
    qed
    then show ?thesis using True Cons.prems(1) by simp
  next
    case False
    then have "by_start_then_type y x" by (simp add: by_start_then_type_def)
    moreover have "sorted_wrt by_start_then_type (insort_key start_pos x ys)"
      using Cons by simp
    ultimately show ?thesis using False Cons.prems(1) by (auto simp: set_insort_key)
  qed
qed

lemma stable_sort_breaks_ties:
  assumes "sorted (map (\<lambda>e. RuleType_value (rule_type e)) xs)"
  shows "sorted_wrt by_start_then_type (sort_key start_pos xs)"
  using assms
proof (induction xs)
  case Nil
  then show ?case by simp
next
  case (Cons x xs)
  then show ?case by (simp add: by_start_then_type_insort)
qed

lemma collected_types_sorted:
  assumes "sorted (map (\<lambda>p. RuleType_value (fst p)) registry)"
    and "emits_own_type registry doc text"
  shows "sorted (map (\<lambda>e. RuleType_value (rule_type e)) (collected (map snd registry) doc text))
       \<and> (\<forall>e \<in> set (collected (map snd registry) doc text). \<exists>p \<in> set registry. rule_type e = fst p)"
  using assms
proof (induction registry)
  case Nil
  then show ?case by (simp add: collected_def)
next
  case (Cons p registry)
  obtain k rule where p: "p = (k, rule)" by (cases p)
  have own: "\<forall>e \<in> set (contribution rule doc text). rule_type e = k"
    using Cons.prems(2) by (simp add: emits_own_type_def p list_all_iff)
  have rest: "emits_own_type registry doc text"
    using Cons.prems(2) by (simp add: emits_own_type_def)
  have later: "\<forall>q \<in> set registry. RuleType_value k \<le> RuleType_value (fst q)"
    using Cons.prems(1) by (simp add: p)
  have ih: "sorted (map (\<lambda>e. RuleType_value (rule_type e)) (collected (map snd registry) doc text))"
    and mem: "\<forall>e \<in> set (collected (map snd registry) doc text). \<exists>q \<in> set registry. rule_type e = fst q"
    using Cons.IH Cons.prems(1) rest by simp_all
  have split: "collected (map snd (p # registry)) doc text
      = contribution rule doc text @ collected (map snd registry) doc text"
    by (simp add: collected_def p)
  have "sorted (map (\<lambda>e. RuleType_value (rule_type e)) (contribution rule doc text))"
    using own by (simp add: sorted_wrt_iff_nth_less sorted_iff_nth_mono_less)
  then have "sorted (map (\<lambda>e. RuleType_value (rule_type e)) (collected (map snd (p # registry)) doc text))"
    unfolding split using ih own mem later by (fastforce simp: sorted_append)
  moreover have "\<forall>e \<in> set (collected (map snd (p # registry)) doc text). \<exists>q \<in> set (p # registry). rule_type e = fst q"
    unfolding split using own mem by (auto simp: p)
  ultimately show ?case by simp
qed

lemma add_rule_keys:
  assumes "map fst (rules self) = [ADVERB, CONJUGATION, AGREEMENT, STRUCTURE]
         \<or> map fst (rules self) = [ADVERB, CONJUGATION, AGREEMENT, STRUCTURE, PUNCTUATION]"
  shows "map fst (rules (add_rule c self)) = [ADVERB, CONJUGATION, AGREEMENT, STRUCTURE]
       \<or> map fst (rules (add_rule c self)) = [ADVERB, CONJUGATION, AGREEMENT, STRUCTURE, PUNCTUATION]"
proof (cases c)
  case (Conforming rule)
  then show ?thesis using assms
    by (cases "rule_type_of rule") (auto simp: update_keys)
next
  case NonConforming
  then show ?thesis using assms by simp
qed

lemma fold_add_rule_keys:
  assumes "map fst (rules self) = [ADVERB, CONJUGATION, AGREEMENT, STRUCTURE]
         \<or> map fst (rules self) = [ADVERB, CONJUGATION, AGREEMENT, STRUCTURE, PUNCTUATION]"
  shows "map fst (rules (fold add_rule cs self)) = [ADVERB, CONJUGATION, AGREEMENT, STRUCTURE]
       \<or> map fst (rules (fold add_rule cs self)) = [ADVERB, CONJUGATION, AGREEMENT, STRUCTURE, PUNCTUATION]"
  using assms
proof (induction cs arbitrary: self)
  case Nil
  then show ?case by simp
next
  case (Cons c cs)
  from add_rule_keys [OF Cons.prems] show ?case
    using Cons.IH [of "add_rule c self"] by simp
qed

lemma registry_in_enum_order:
  "sorted (map (\<lambda>p. RuleType_value (fst p)) (rules (fold add_rule cs (init_rules model a c g s))))"
proof -
  let ?self = "fold add_rule cs (init_rules model a c g s)"
  have "map fst (rules (init_rules model a c g s)) = [ADVERB, CONJUGATION, AGREEMENT, STRUCTURE]"
    by (simp add: init_rules_def load_rules_def)
  then have keys: "map fst (rules ?self) = [ADVERB, CONJUGATION, AGREEMENT, STRUCTURE]
       \<or> map fst (rules ?self) = [ADVERB, CONJUGATION, AGREEMENT, STRUCTURE, PUNCTUATION]"
    by (intro fold_add_rule_keys) simp
  have "map (\<lambda>p. RuleType_value (fst p)) (rules ?self) = map RuleType_value (map fst (rules ?self))"
    by (simp add: comp_def)
  then show ?thesis using keys by auto
qed

lemmas ex_defs = error_at_def constant_rule_def failing_rule_def generator_rule_def
  counting_rule_def fixed_parser_def init_rules_def load_rules_def check_def after_check_def
  check_call_def call_nlp_def report_def

lemma sample_check:
  "fst (check sample_rules 0 ''Il rapidement manges.'')
     = Inr [(error_at AGREEMENT 0 2)\<lparr>source_text := ''Il rapidement manges.''\<rparr>,
            (error_at ADVERB 3 13)\<lparr>source_text := ''Il rapidement manges.''\<rparr>,
            (error_at CONJUGATION 3 13)\<lparr>source_text := ''Il rapidement manges.''\<rparr>,
            (error_at CONJUGATION 14 20)\<lparr>source_text := ''Il rapidement manges.''\<rparr>]"
  by (simp add: sample_rules_def ex_defs)

text \<open>
  C1 (as amended). When the parser succeeds, the list \<open>check\<close> returns is sorted by start
  offset, ascending. The sort is stable and its key is the start offset alone: errors with
  equal start offsets keep the order in which the loop collected them. That order is the
  order of the rule categories whenever the keys of the registry are in enum order (as they
  are after \<open>__init__\<close> and any calls of \<open>add_rule\<close>, see \<open>registry_in_enum_order\<close>) and
  every rule only emits errors of the category it is registered under.
\<close>

theorem check_sorted_by_start:
  assumes "nlp self h text = Inr doc" and "fst (check self h text) = Inr errs"
  shows "sorted (map start_pos errs)
       \<and> (\<forall>k. filter (\<lambda>e. start_pos e = k) errs
               = filter (\<lambda>e. start_pos e = k) (collected (map snd (rules self)) doc text))
       \<and> (sorted (map (\<lambda>p. RuleType_value (fst p)) (rules self))
            \<and> emits_own_type (rules self) doc text
          \<longrightarrow> sorted_wrt by_start_then_type errs)"
proof -
  have errs: "errs = sort_key start_pos (collected (map snd (rules self)) doc text)"
    using assms check_parsed [of self h "text" doc] by simp
  have "sorted (map start_pos errs)" by (simp add: errs)
  moreover have "filter (\<lambda>e. start_pos e = k) errs
      = filter (\<lambda>e. start_pos e = k) (collected (map snd (rules self)) doc text)" for k
    unfolding errs by (rule sort_key_stable)
  moreover have "sorted_wrt by_start_then_type errs"
    if "sorted (map (\<lambda>p. RuleType_value (fst p)) (rules self))"
      and "emits_own_type (rules self) doc text"
    unfolding errs using collected_types_sorted [OF that] by (intro stable_sort_breaks_ties) simp
  ultimately show ?thesis by blast
qed

theorem check_sorted_by_start_witness:
  "sorted_wrt by_start_then_type
     [(error_at AGREEMENT 0 2)\<lparr>source_text := ''Il rapidement manges.''\<rparr>,
      (error_at ADVERB 3 13)\<lparr>source_text := ''Il rapidement manges.''\<rparr>,
      (error_at CONJUGATION 3 13)\<lparr>source_text := ''Il rapidement manges.''\<rparr>,
      (error_at CONJUGATION 14 20)\<lparr>source_text := ''Il rapidement manges.''\<rparr>]"
  using check_sorted_by_start [of sample_rules 0 "''Il rapidement manges.''" "[]", OF _ sample_check]
  by (simp add: sample_rules_def ex_defs emits_own_type_def contribution_def yielded_def)

text \<open>
  C1 as stated fails: a rule registered under Adverb that reports a Structure error at
  offset 0 comes before the Conjugation error at offset 0 of the next rule.
\<close>

theorem check_tie_break_counterexample:
  "fst (check foreign_rules 0 ''Il vont'')
     = Inr [(error_at STRUCTURE 0 2)\<lparr>source_text := ''Il vont''\<rparr>,
            (error_at CONJUGATION 0 2)\<lparr>source_text := ''Il vont''\<rparr>]
   \<and> \<not> sorted_wrt by_start_then_type
         [(error_at STRUCTURE 0 2)\<lparr>source_text := ''Il vont''\<rparr>,
          (error_at CONJUGATION 0 2)\<lparr>source_text := ''Il vont''\<rparr>]"
  by (simp add: foreign_rules_def ex_defs by_start_then_type_def)

lemma collected_split:
  "collected (map snd (before @ (k, rule) # after)) doc text
     = collected (map snd before) doc text @ contribution rule doc text
         @ collected (map snd after) doc text"
  by (simp add: collected_def)

lemma printed_failure:
  assumes "failure rule doc = Some e"
  shows "report rule e \<in> set (printed (before @ (k, rule) # after) doc)"
  using assms by (simp add: printed_def)

text \<open>
  C2 (as amended). If the turn of one registered rule ends in an exception, \<open>check\<close>
  still returns a list (the exception does not reach the caller; it is printed), and the
  errors of the other rules are in it as they are without the failing rule. The failing
  rule contributes the errors it had yielded before the exception: none when the call of
  \<open>apply\<close> itself raises, and then the list is the one \<open>check\<close> returns with the
  failing rule taken out of the registry.
\<close>

theorem failing_rule_isolated:
  assumes "nlp self h text = Inr doc"
    and "rules self = before @ (k, rule) # after"
    and "failure rule doc = Some e"
  shows "fst (check self h text)
           = Inr (sort_key start_pos
                    (collected (map snd before) doc text
                       @ map (\<lambda>error. error\<lparr>source_text := text\<rparr>) (yielded rule doc)
                       @ collected (map snd after) doc text))
       \<and> fst (check (self\<lparr>rules := before @ after\<rparr>) h text)
           = Inr (sort_key start_pos
                    (collected (map snd before) doc text @ collected (map snd after) doc text))
       \<and> (yielded rule doc = []
            \<longrightarrow> fst (check self h text) = fst (check (self\<lparr>rules := before @ after\<rparr>) h text))
       \<and> (fst (apply_rule rule (rule_state rule) doc) = Inl e \<longrightarrow> yielded rule doc = [])
       \<and> report rule e \<in> set (snd (check self h text))"
proof -
  have with_rule: "fst (check self h text)
      = Inr (sort_key start_pos
               (collected (map snd before) doc text
                  @ map (\<lambda>error. error\<lparr>source_text := text\<rparr>) (yielded rule doc)
                  @ collected (map snd after) doc text))"
    using check_parsed [OF assms(1)]
    unfolding assms(2) collected_split contribution_def by simp
  have "nlp (self\<lparr>rules := before @ after\<rparr>) h text = Inr doc"
    using assms(1) by simp
  from check_parsed [OF this]
  have without_rule: "fst (check (self\<lparr>rules := before @ after\<rparr>) h text)
      = Inr (sort_key start_pos
               (collected (map snd before) doc text @ collected (map snd after) doc text))"
    by (simp add: collected_def)
  have same: "fst (check self h text) = fst (check (self\<lparr>rules := before @ after\<rparr>) h text)"
    if "yielded rule doc = []"
    using that with_rule without_rule by simp
  have at_call: "yielded rule doc = []" if "fst (apply_rule rule (rule_state rule) doc) = Inl e"
    using that by (simp add: yielded_def)
  have "report rule e \<in> set (snd (check self h text))"
    using check_events [OF assms(1)] printed_failure [OF assms(3)] by (simp add: assms(2))
  with with_rule without_rule same at_call show ?thesis by blast
qed

theorem failing_rule_isolated_witness:
  "fst (check failing_rules 0 ''Il vont au parc.'')
     = Inr [(error_at CONJUGATION 3 7)\<lparr>source_text := ''Il vont au parc.''\<rparr>]
   \<and> fst (check failing_rules 0 ''Il vont au parc.'')
       = fst (check (failing_rules\<lparr>rules :=
                [(CONJUGATION, constant_rule CONJUGATION [error_at CONJUGATION 3 7]),
                 (AGREEMENT, constant_rule AGREEMENT []),
                 (STRUCTURE, constant_rule STRUCTURE [])]\<rparr>) 0 ''Il vont au parc.'')
   \<and> Print ''Error applying RuleType.ADVERB rules: boom''
       \<in> set (snd (check failing_rules 0 ''Il vont au parc.''))"
  using failing_rule_isolated [of failing_rules 0 "''Il vont au parc.''" "[]" "[]" ADVERB
      "failing_rule ADVERB ''boom''"
      "[(CONJUGATION, constant_rule CONJUGATION [error_at CONJUGATION 3 7]),
        (AGREEMENT, constant_rule AGREEMENT []), (STRUCTURE, constant_rule STRUCTURE [])]"
      "Exception ''boom''"]
  by (simp add: failing_rules_def init_rules_def load_rules_def fixed_parser_def
      failing_rule_def constant_rule_def collected_def contribution_def yielded_def
      failure_def report_def)

text \<open>
  C2 as stated fails: a rule written as a generator, which yields one error and then
  raises, leaves that error in the list \<open>check\<close> returns.
\<close>

theorem partial_errors_kept_counterexample:
  "failure (generator_rule ADVERB (error_at ADVERB 3 13) ''boom'') [] = Some (Exception ''boom'')
   \<and> fst (check generator_rules 0 ''Il rapidement manges.'')
       = Inr [(error_at ADVERB 3 13)\<lparr>source_text := ''Il rapidement manges.''\<rparr>,
              (error_at CONJUGATION 14 20)\<lparr>source_text := ''Il rapidement manges.''\<rparr>]
   \<and> contribution (generator_rule ADVERB (error_at ADVERB 3 13) ''boom'') []
         ''Il rapidement manges.''
       = [(error_at ADVERB 3 13)\<lparr>source_text := ''Il rapidement manges.''\<rparr>]"
  by (simp add: generator_rules_def ex_defs failure_def contribution_def yielded_def)

lemma contribution_source_text:
  "e \<in> set (contribution rule doc text) \<Longrightarrow> source_text e = text"
  by (auto simp add: contribution_def)

lemma collected_source_text:
  "e \<in> set (collected rs doc text) \<Longrightarrow> source_text e = text"
  unfolding collected_def using contribution_source_text by auto

text \<open>
  C10. Every error \<open>check\<close> returns has \<open>source_text\<close> equal to the checked text,
  whatever the rule had put there.
\<close>

theorem check_sets_source_text:
  assumes "fst (check self h text) = Inr errs"
  shows "list_all (\<lambda>e. source_text e = text) errs"
proof (cases "nlp self h text")
  case (Inl e)
  then show ?thesis using assms check_failed(1) [of self h "text" e] by simp
next
  case (Inr doc)
  have "errs = sort_key start_pos (collected (map snd (rules self)) doc text)"
    using assms check_parsed [OF Inr] by simp
  then have "set errs = set (collected (map snd (rules self)) doc text)"
    by simp
  then show ?thesis
    unfolding list_all_iff using collected_source_text by blast
qed

theorem check_sets_source_text_witness:
  "list_all (\<lambda>e. source_text e = ''Il rapidement manges.'')
     [(error_at AGREEMENT 0 2)\<lparr>source_text := ''Il rapidement manges.''\<rparr>,
      (error_at ADVERB 3 13)\<lparr>source_text := ''Il rapidement manges.''\<rparr>,
      (error_at CONJUGATION 3 13)\<lparr>source_text := ''Il rapidement manges.''\<rparr>,
      (error_at CONJUGATION 14 20)\<lparr>source_text := ''Il rapidement manges.''\<rparr>]"
  using check_sets_source_text [OF sample_check] .

lemma stateless_contribution:
  assumes "stateless rule"
  shows "contribution (rule\<lparr>rule_state := s\<rparr>) doc text = contribution rule doc text"
proof -
  have "fst (apply_rule rule s doc) = fst (apply_rule rule (rule_state rule) doc)"
    using assms by (simp add: stateless_def)
  then show ?thesis by (simp add: contribution_def yielded_def)
qed

lemma stateless_collected:
  assumes "list_all (\<lambda>p. stateless (snd p)) registry"
  shows "collected (map snd (advanced registry doc)) doc' text
           = collected (map snd registry) doc' text"
  using assms
proof (induction registry)
  case Nil
  then show ?case by (simp add: advanced_def)
next
  case (Cons p registry)
  then have "stateless (snd p)" and "list_all (\<lambda>p. stateless (snd p)) registry"
    by simp_all
  then show ?case
    using Cons.IH stateless_contribution [of "snd p"]
    by (simp add: collected_def advanced_def)
qed

text \<open>
  C9 (as amended). With a deterministic parser and rules whose outcome does not depend on
  their internal state, a second call of \<open>check\<close> on the same text, made on the
  orchestrator as the first call left it and at any hidden state of the parser, returns
  the same list of errors as the first, in the same order.
\<close>

theorem check_twice_same:
  assumes "deterministic (nlp self)" and "list_all (\<lambda>p. stateless (snd p)) (rules self)"
  shows "fst (check (after_check self h text) h' text) = fst (check self h text)"
proof (cases "nlp self h text")
  case (Inl e)
  have "nlp self h' text = nlp self h text"
    using assms(1) unfolding deterministic_def by blast
  then have "nlp self h' text = Inl e"
    using Inl by simp
  then show ?thesis
    using check_failed [OF Inl] check_failed(1) [of self h' "text" e] by simp
next
  case (Inr doc)
  let ?self' = "self\<lparr>rules := advanced (rules self) doc\<rparr>"
  have "nlp self h' text = nlp self h text"
    using assms(1) unfolding deterministic_def by blast
  then have "nlp self h' text = Inr doc"
    using Inr by simp
  then have "nlp ?self' h' text = Inr doc" by simp
  from check_parsed [OF this]
  have "fst (check ?self' h' text)
      = Inr (sort_key start_pos (collected (map snd (rules self)) doc text))"
    using stateless_collected [OF assms(2)] by simp
  then show ?thesis
    using check_parsed [OF Inr] after_check_parsed [OF Inr] by simp
qed

theorem check_twice_same_witness:
  "fst (check (after_check sample_rules 0 ''Il rapidement manges.'') 1 ''Il rapidement manges.'')
     = fst (check sample_rules 0 ''Il rapidement manges.'')"
proof -
  have "deterministic (nlp sample_rules)"
    by (simp add: deterministic_def sample_rules_def init_rules_def fixed_parser_def)
  moreover have "list_all (\<lambda>p. stateless (snd p)) (rules sample_rules)"
    by (simp add: stateless_def sample_rules_def init_rules_def load_rules_def constant_rule_def)
  ultimately show ?thesis by (rule check_twice_same)
qed

text \<open>
  C9 as stated fails: with a deterministic parser and a registered rule that counts its
  calls, the second call of \<open>check\<close> on the same text returns another list.
\<close>

theorem stateful_rule_counterexample:
  "deterministic (nlp counting_rules)
   \<and> fst (check counting_rules 0 ''Je souvent mange'')
       = Inr [(error_at ADVERB 0 1)\<lparr>source_text := ''Je souvent mange''\<rparr>]
   \<and> fst (check (after_check counting_rules 0 ''Je souvent mange'') 0 ''Je souvent mange'')
       = Inr [(error_at ADVERB 1 2)\<lparr>source_text := ''Je souvent mange''\<rparr>]"
  by (simp add: counting_rules_def ex_defs deterministic_def)

text \<open>
  C8. After \<open>add_rule\<close> of a rule whose type is already registered, \<open>get_rule\<close> of that
  type returns the new rule, \<open>get_rule\<close> of every other type returns what it returned
  before, and the keys of the registry and their order are unchanged.
\<close>

theorem add_rule_replaces:
  assumes "get_rule self (rule_type_of rule) = Some old"
  shows "get_rule (add_rule (Conforming rule) self) (rule_type_of rule) = Some rule
       \<and> (\<forall>t. t \<noteq> rule_type_of rule
              \<longrightarrow> get_rule (add_rule (Conforming rule) self) t = get_rule self t)
       \<and> map fst (rules (add_rule (Conforming rule) self)) = map fst (rules self)"
proof -
  have "rule_type_of rule \<in> fst ` set (rules self)"
    using assms by (auto simp: get_rule_def dest: map_of_SomeD intro: rev_image_eqI)
  then have "map fst (AList.update (rule_type_of rule) rule (rules self)) = map fst (rules self)"
    by (simp add: update_keys)
  then show ?thesis by (simp add: get_rule_def update_conv')
qed

theorem add_rule_replaces_witness:
  "get_rule (add_rule (Conforming (constant_rule ADVERB [])) sample_rules) ADVERB
     = Some (constant_rule ADVERB [])
   \<and> get_rule (add_rule (Conforming (constant_rule ADVERB [])) sample_rules) CONJUGATION
       = get_rule sample_rules CONJUGATION
   \<and> map fst (rules (add_rule (Conforming (constant_rule ADVERB [])) sample_rules))
       = [ADVERB, CONJUGATION, AGREEMENT, STRUCTURE]"
proof -
  have present: "get_rule sample_rules (rule_type_of (constant_rule ADVERB []))
      = Some (constant_rule ADVERB [error_at ADVERB 3 13])"
    by (simp add: get_rule_def sample_rules_def init_rules_def load_rules_def constant_rule_def)
  have other: "CONJUGATION \<noteq> rule_type_of (constant_rule ADVERB [])"
    by (simp add: constant_rule_def)
  have keys: "map fst (rules sample_rules) = [ADVERB, CONJUGATION, AGREEMENT, STRUCTURE]"
    by (simp add: sample_rules_def init_rules_def load_rules_def)
  have ty: "rule_type_of (constant_rule ADVERB []) = ADVERB"
    by (simp add: constant_rule_def)
  from add_rule_replaces [OF present] other keys ty show ?thesis
    by metis
qed

subsection \<open>Adverb placement\<close>









lemmas doc_defs = one_adverb_def two_adverbs_def adverb_after_verb_def tok_je_def
  tok_adverb_def tok_mange_def




text \<open>
  The first test does not look at where the adverb stands: in \<open>Je mange rapidement\<close>
  no adverb separates subject and verb, and the function reports \<open>rapidement\<close>.
\<close>

lemma flags_adverb_after_verb:
  "wf_doc adverb_after_verb
   \<and> \<not> list_ex (spec_subject_verb_separation adverb_after_verb) adverb_after_verb
   \<and> fst (validate_adverb_placement no_tense (fixed_parser adverb_after_verb) 0
            ''Je mange rapidement'')
       = Inr (False, Some (separation_message (tok_adverb ''rapidement'' 2 1)))"
proof -
  have "wf_doc adverb_after_verb"
    by (simp add: wf_doc_def doc_defs upt_rec)
  moreover have "\<not> list_ex (spec_subject_verb_separation adverb_after_verb) adverb_after_verb"
    by (simp add: doc_defs spec_subject_verb_separation_def finite_verb_def)
  moreover have "fst (validate_adverb_placement no_tense (fixed_parser adverb_after_verb) 0
            ''Je mange rapidement'')
       = Inr (False, Some (separation_message (tok_adverb ''rapidement'' 2 1)))"
    by (simp add: validate_adverb_placement_def call_nlp_def fixed_parser_def doc_defs
        separates_subject_and_verb_def head_of_def lefts_def)
  ultimately show ?thesis by simp
qed

subsection \<open>The checker service\<close>

lemma whitespace_short_circuit:
  "strip text = [] \<Longrightarrow> checker_check utils_nlp self h h' text = (Inr (empty_result text), [])"
  by (simp add: checker_check_def)

lemma strip_spaces: "strip ''   '' = []"
  by (simp add: strip_def isspace_def)

text \<open>
  C3. On a whitespace-only text \<open>check\<close> returns the empty result without any call of a
  parser or of the text generation pipeline (no event), with no errors, no structure and
  no suggestions. Its \<open>by_type\<close> mapping is empty: the five labels the specification asks for are
  missing, whereas \<open>_generate_stats\<close> on an empty error list has all five at zero.
\<close>

theorem empty_result_lacks_labels:
  "checker_check utils_nlp self h h' ''   ''
     = (Inr \<lparr>original_text = ''   '', errors = [], sentence_structure = [], ai_suggestions = [],
             stats = \<lparr>total_errors = 0, by_type = []\<rparr>\<rparr>, [])
   \<and> map_of (by_type (stats (empty_result ''   ''))) (french_label AGREEMENT) = None
   \<and> generate_stats []
       = \<lparr>total_errors = 0,
          by_type = [(''Place des adverbes'', 0), (''Conjugaison'', 0), (''Accord'', 0),
                     (''Structure de phrase'', 0), (''Ponctuation'', 0)]\<rparr>"
  by (simp add: whitespace_short_circuit strip_spaces empty_result_def generate_stats_def
      RuleType_members_def)

lemma ai_loop_requests:
  "list_ex is_request (snd (ai_loop model (p # ps) (results, tr)))"
proof (cases "model p")
  case (Inl e)
  then show ?thesis by simp
next
  case (Inr out)
  show ?thesis
  proof (cases "generated_text out")
    case (Inl e)
    then show ?thesis using Inr by simp
  next
    case (Inr t)
    have "list_ex is_request tr' \<Longrightarrow> list_ex is_request (snd (ai_loop model qs (rs, tr')))" for qs rs tr'
    proof (induction qs arbitrary: rs tr')
      case Nil
      then show ?case by simp
    next
      case (Cons q qs)
      then show ?case by (auto split: sum.splits)
    qed
    then show ?thesis using Inr \<open>model p = Inr out\<close> by simp
  qed
qed

lemma ai_loop_raises:
  "list_ex (ai_call_raises model) ps \<Longrightarrow> \<exists>e tr'. ai_loop model ps (results, tr) = (Inl e, tr')"
proof (induction ps arbitrary: results tr)
  case Nil
  then show ?case by simp
next
  case (Cons p ps)
  show ?case
  proof (cases "ai_call_raises model p")
    case True
    then show ?thesis by (auto simp: ai_call_raises_def split: sum.splits)
  next
    case False
    then obtain out t where "model p = Inr out" "generated_text out = Inr t"
      by (auto simp: ai_call_raises_def split: sum.splits)
    moreover have "list_ex (ai_call_raises model) ps" using Cons.prems False by simp
    ultimately show ?thesis using Cons.IH by simp
  qed
qed

lemma suggestions_requests:
  "list_ex is_request (snd (get_ai_suggestions self text errs)) = (errs \<noteq> [])"
proof (cases "errs = []")
  case True
  then show ?thesis by (simp add: get_ai_suggestions_def)
next
  case False
  obtain r tr where l: "ai_loop (ai_grammar_model self) (prompts_for text) ([], []) = (r, tr)"
    by (cases "ai_loop (ai_grammar_model self) (prompts_for text) ([], [])")
  obtain p ps where pp: "prompts_for text = p # ps"
    by (simp add: prompts_for_def)
  have "list_ex is_request (snd (ai_loop (ai_grammar_model self) (prompts_for text) ([], [])))"
    unfolding pp by (rule ai_loop_requests)
  then have "list_ex is_request tr"
    using l by simp
  then show ?thesis using False l by (cases r) (simp_all add: get_ai_suggestions_def)
qed

lemma suggestions_swallow:
  assumes "list_ex (ai_call_raises (ai_grammar_model self)) (prompts_for text)"
  shows "fst (get_ai_suggestions self text errs) = []"
proof (cases "errs = []")
  case True
  then show ?thesis by (simp add: get_ai_suggestions_def)
next
  case False
  from ai_loop_raises [OF assms, of "[]" "[]"]
  obtain e tr where "ai_loop (ai_grammar_model self) (prompts_for text) ([], []) = (Inl e, tr)"
    by blast
  then show ?thesis using False by (simp add: get_ai_suggestions_def)
qed

lemma rest_independent_of_model:
  "map_sum id rest_of_result (fst (checker_check utils_nlp self h h' text))
     = map_sum id rest_of_result
         (fst (checker_check utils_nlp (self\<lparr>ai_grammar_model := model'\<rparr>) h h' text))"
proof (cases "strip text = []")
  case True
  then show ?thesis by (simp add: checker_check_def)
next
  case False
  obtain r tr1 where c: "check (rule_checker self) h text = (r, tr1)"
    by (cases "check (rule_checker self) h text")
  show ?thesis
  proof (cases r)
    case (Inl e)
    then show ?thesis using False c by (simp add: checker_check_def)
  next
    case (Inr errs)
    obtain s1 t1 where g1: "get_ai_suggestions self text errs = (s1, t1)"
      by (cases "get_ai_suggestions self text errs")
    obtain s2 t2 where g2:
      "get_ai_suggestions (self\<lparr>ai_grammar_model := model'\<rparr>) text errs = (s2, t2)"
      by (cases "get_ai_suggestions (self\<lparr>ai_grammar_model := model'\<rparr>) text errs")
    obtain a tr3 where a: "analyze_sentence_structure utils_nlp h' text = (a, tr3)"
      by (cases "analyze_sentence_structure utils_nlp h' text")
    show ?thesis using False c Inr g1 g2 a
      by (cases a) (simp_all add: checker_check_def rest_of_result_def)
  qed
qed

text \<open>
  C4. \<open>_get_ai_suggestions\<close> makes a request to the text generation pipeline exactly when
  the error list is not empty (on an empty list it returns no suggestion and makes no
  call); if a turn of its loop raises, it returns the empty list; and the other parts of
  the result of \<open>check\<close> (text, errors, structure, stats, or the parser's exception) are
  the same whatever the pipeline does.
\<close>

theorem ai_suggestions_advisory:
  "get_ai_suggestions self text [] = ([], [])
   \<and> list_ex is_request (snd (get_ai_suggestions self text errs)) = (errs \<noteq> [])
   \<and> (list_ex (ai_call_raises (ai_grammar_model self)) (prompts_for text)
        \<longrightarrow> fst (get_ai_suggestions self text errs) = [])
   \<and> map_sum id rest_of_result (fst (checker_check utils_nlp self h h' text))
       = map_sum id rest_of_result
           (fst (checker_check utils_nlp (self\<lparr>ai_grammar_model := model'\<rparr>) h h' text))"
  using suggestions_requests [of self "text" errs] suggestions_swallow [of self "text" errs]
    rest_independent_of_model [of utils_nlp self h h' "text" model']
  by (simp add: get_ai_suggestions_def)

theorem ai_suggestions_advisory_witness:
  "fst (get_ai_suggestions raising_checker ''Je souvent mange'' [error_at ADVERB 3 10]) = []
   \<and> list_ex is_request
       (snd (get_ai_suggestions raising_checker ''Je souvent mange'' [error_at ADVERB 3 10]))"
proof -
  have "list_ex (ai_call_raises (ai_grammar_model raising_checker)) (prompts_for ''Je souvent mange'')"
    by (simp add: raising_checker_def ai_call_raises_def prompts_for_def)
  then show ?thesis
    using ai_suggestions_advisory [of raising_checker "''Je souvent mange''" "[error_at ADVERB 3 10]"]
    by simp
qed

end
